theory Spec2Isabelle
  imports Complex_Main "HOL-Library.Log_Nat"
begin

section \<open>JavaScript numbers\<close>

text \<open>
  A JavaScript number is an IEEE 754 binary64 value. The finite ones are kept as the
  rational they denote; the negative zero is identified with zero (the program only
  tests it for truthiness and prints it, and the two zeros agree on both).
\<close>

datatype jsnum = NaN | PInf | NInf | Fin rat

text \<open>The binary exponent of a positive rational: \<open>2 powi ilog2 q \<le> q < 2 powi (ilog2 q + 1)\<close>.\<close>

definition ilog2 :: "rat \<Rightarrow> int" where
  "ilog2 q =
     (if 1 \<le> q then int (floorlog 2 (nat \<lfloor>q\<rfloor>)) - 1
      else - int (floorlog 2 (nat (\<lceil>1 / q\<rceil> - 1))))"

definition round_half_even :: "rat \<Rightarrow> int" where
  "round_half_even x =
     (let f = \<lfloor>x\<rfloor>; r = x - of_int f
      in if r < 1 / 2 then f
         else if 1 / 2 < r then f + 1
         else if even f then f else f + 1)"

text \<open>
  Rounding of a real value to binary64, to nearest, ties to even: 53 significant bits,
  exponents from \<open>-1022\<close> (below it the spacing stays \<open>2 powi -1074\<close>), infinity from
  \<open>2 powi 1024\<close> on.
\<close>

definition fl64 :: "rat \<Rightarrow> jsnum" where
  "fl64 q =
     (if q = 0 then Fin 0
      else let a = \<bar>q\<bar>;
               e = max (ilog2 a) (- 1022);
               u = 2 powi (e - 52);
               m = of_int (round_half_even (a / u)) * u
           in if 2 powi 1024 \<le> m then (if 0 < q then PInf else NInf)
              else Fin (if 0 < q then m else - m))"

text \<open>\<open>x || d\<close> on numbers: \<open>NaN\<close> and zero are falsy.\<close>

definition truthy :: "jsnum \<Rightarrow> bool" where
  "truthy x = (x \<noteq> NaN \<and> x \<noteq> Fin 0)"

definition js_or :: "jsnum \<Rightarrow> jsnum \<Rightarrow> jsnum" where
  "js_or x d = (if truthy x then x else d)"

fun js_less :: "jsnum \<Rightarrow> jsnum \<Rightarrow> bool" where
  "js_less NaN _ = False"
| "js_less _ NaN = False"
| "js_less PInf _ = False"
| "js_less _ PInf = True"
| "js_less NInf NInf = False"
| "js_less NInf _ = True"
| "js_less (Fin a) NInf = False"
| "js_less (Fin a) (Fin b) = (a < b)"

text \<open>\<open>Math.max(a, b)\<close>: \<open>NaN\<close> if either argument is.\<close>

definition Math_max :: "jsnum \<Rightarrow> jsnum \<Rightarrow> jsnum" where
  "Math_max a b = (if a = NaN \<or> b = NaN then NaN else if js_less a b then b else a)"

fun js_mul :: "jsnum \<Rightarrow> jsnum \<Rightarrow> jsnum" where
  "js_mul (Fin a) (Fin b) = fl64 (a * b)"
| "js_mul NaN _ = NaN"
| "js_mul _ NaN = NaN"
| "js_mul (Fin a) PInf = (if a = 0 then NaN else if 0 < a then PInf else NInf)"
| "js_mul (Fin a) NInf = (if a = 0 then NaN else if 0 < a then NInf else PInf)"
| "js_mul PInf (Fin b) = (if b = 0 then NaN else if 0 < b then PInf else NInf)"
| "js_mul NInf (Fin b) = (if b = 0 then NaN else if 0 < b then NInf else PInf)"
| "js_mul PInf PInf = PInf"
| "js_mul PInf NInf = NInf"
| "js_mul NInf PInf = NInf"
| "js_mul NInf NInf = PInf"

fun js_add :: "jsnum \<Rightarrow> jsnum \<Rightarrow> jsnum" where
  "js_add (Fin a) (Fin b) = fl64 (a + b)"
| "js_add NaN _ = NaN"
| "js_add _ NaN = NaN"
| "js_add PInf NInf = NaN"
| "js_add NInf PInf = NaN"
| "js_add PInf _ = PInf"
| "js_add NInf _ = NInf"
| "js_add (Fin a) PInf = PInf"
| "js_add (Fin a) NInf = NInf"

section \<open>Strings to numbers\<close>

text \<open>
  Strings are lists of code units, here of type \<open>char\<close>: the code units from 0 to 255.
  The white space that \<open>parseInt\<close>, \<open>parseFloat\<close> and \<open>Number\<close> skip
  (\<open>StrWhiteSpaceChar\<close>) is, among these, TAB, LF, VT, FF, CR, SP and the no-break
  space U+00A0; the other characters of that class lie beyond U+00FF.
\<close>

definition is_ws :: "char \<Rightarrow> bool" where
  "is_ws c = (c \<in> {CHR 0x09, CHR 0x0A, CHR 0x0B, CHR 0x0C, CHR 0x0D, CHR '' '', CHR 0xA0})"

definition digit_of :: "char \<Rightarrow> nat option" where
  "digit_of c =
     (let n = of_char c :: nat
      in if 48 \<le> n \<and> n \<le> 57 then Some (n - 48)
         else if 97 \<le> n \<and> n \<le> 102 then Some (n - 87)
         else if 65 \<le> n \<and> n \<le> 70 then Some (n - 55)
         else None)"

definition is_digit :: "nat \<Rightarrow> char \<Rightarrow> bool" where
  "is_digit R c = (case digit_of c of None \<Rightarrow> False | Some d \<Rightarrow> d < R)"

definition digits_value :: "nat \<Rightarrow> string \<Rightarrow> nat" where
  "digits_value R z =
     foldl (\<lambda>acc c. acc * R + (case digit_of c of None \<Rightarrow> 0 | Some d \<Rightarrow> d)) 0 z"

text \<open>
  \<open>parseInt(string)\<close> with no radix: leading white space, an optional sign, a
  \<open>0x\<close>/\<open>0X\<close> prefix selecting radix 16, then the longest run of digits. \<open>int_literal\<close>
  is the integer read, \<open>None\<close> when the run of digits is empty; \<open>parseInt\<close> returns it
  as a number, \<open>NaN\<close> for \<open>None\<close>.
\<close>

definition int_literal :: "string \<Rightarrow> int option" where
  "int_literal str =
     (let s = dropWhile is_ws str;
          neg = (take 1 s = ''-'');
          s1 = (if take 1 s = ''+'' \<or> take 1 s = ''-'' then drop 1 s else s);
          hex = (take 2 s1 = ''0x'' \<or> take 2 s1 = ''0X'');
          R = (if hex then 16 else 10);
          s2 = (if hex then drop 2 s1 else s1);
          z = takeWhile (is_digit R) s2
      in if z = [] then None
         else Some ((if neg then - 1 else 1) * int (digits_value R z)))"

definition parseInt :: "string \<Rightarrow> jsnum" where
  "parseInt str = (case int_literal str of None \<Rightarrow> NaN | Some n \<Rightarrow> fl64 (of_int n))"

text \<open>
  A \<open>StrDecimalLiteral\<close> at the start of a string: an optional sign and either
  \<open>Infinity\<close> or digits with an optional fraction and an optional exponent (which counts
  only when it has a digit). \<open>scan_decimal\<close> returns what was read, as an exact value,
  and the rest of the string.
\<close>

datatype strnum = SNone | SInf bool | SVal rat

definition scan_exponent :: "string \<Rightarrow> int \<times> string" where
  "scan_exponent r =
     (if take 1 r = ''e'' \<or> take 1 r = ''E'' then
        (let r1 = drop 1 r;
             eneg = (take 1 r1 = ''-'');
             r2 = (if take 1 r1 = ''+'' \<or> take 1 r1 = ''-'' then drop 1 r1 else r1);
             ds = takeWhile (is_digit 10) r2
         in if ds = [] then (0, r)
            else ((if eneg then - 1 else 1) * int (digits_value 10 ds),
                  dropWhile (is_digit 10) r2))
      else (0, r))"

definition scan_decimal :: "string \<Rightarrow> strnum \<times> string" where
  "scan_decimal s =
     (let neg = (take 1 s = ''-'');
          s1 = (if take 1 s = ''+'' \<or> take 1 s = ''-'' then drop 1 s else s)
      in if take 8 s1 = ''Infinity'' then (SInf neg, drop 8 s1)
         else
           let ip = takeWhile (is_digit 10) s1;
               r = dropWhile (is_digit 10) s1;
               fp = (if take 1 r = ''.'' then takeWhile (is_digit 10) (drop 1 r) else []);
               r' = (if take 1 r = ''.'' then dropWhile (is_digit 10) (drop 1 r) else r)
           in if ip = [] \<and> fp = [] then (SNone, s)
              else (SVal ((if neg then - 1 else 1) * of_nat (digits_value 10 (ip @ fp))
                          * 10 powi (fst (scan_exponent r') - int (length fp))),
                    snd (scan_exponent r')))"

definition num_of_strnum :: "strnum \<Rightarrow> jsnum" where
  "num_of_strnum v =
     (case v of SNone \<Rightarrow> NaN | SInf neg \<Rightarrow> (if neg then NInf else PInf) | SVal q \<Rightarrow> fl64 q)"

text \<open>\<open>parseFloat(string)\<close>: leading white space is skipped, what follows the literal is ignored.\<close>

definition parseFloat :: "string \<Rightarrow> jsnum" where
  "parseFloat str = num_of_strnum (fst (scan_decimal (dropWhile is_ws str)))"

text \<open>
  \<open>Number(string)\<close>: white space is trimmed at both ends; the empty string is 0; the
  whole of the rest must be a decimal literal or an unsigned \<open>0x\<close>, \<open>0o\<close> or \<open>0b\<close>
  literal.
\<close>

definition trim :: "string \<Rightarrow> string" where
  "trim s = rev (dropWhile is_ws (rev (dropWhile is_ws s)))"

definition radix_literal :: "string \<Rightarrow> nat option" where
  "radix_literal s =
     (let R = (if take 2 s = ''0x'' \<or> take 2 s = ''0X'' then 16
               else if take 2 s = ''0o'' \<or> take 2 s = ''0O'' then 8
               else if take 2 s = ''0b'' \<or> take 2 s = ''0B'' then 2 else 0);
          z = drop 2 s
      in if R \<noteq> 0 \<and> z \<noteq> [] \<and> list_all (is_digit R) z then Some (digits_value R z)
         else None)"

definition Number :: "string \<Rightarrow> jsnum" where
  "Number str =
     (let s = trim str
      in if s = [] then Fin 0
         else case radix_literal s of
                Some n \<Rightarrow> fl64 (of_nat n)
              | None \<Rightarrow> (case scan_decimal s of
                           (v, []) \<Rightarrow> num_of_strnum v
                         | (v, _ # _) \<Rightarrow> NaN))"

section \<open>Numbers to strings\<close>

definition digit_char :: "nat \<Rightarrow> char" where
  "digit_char d = char_of (48 + d)"

function show_nat :: "nat \<Rightarrow> string" where
  "show_nat n = (if n < 10 then [digit_char n] else show_nat (n div 10) @ [digit_char (n mod 10)])"
  by pat_completeness auto
termination
  by (relation "measure id") auto

definition show_int :: "int \<Rightarrow> string" where
  "show_int i = (if i < 0 then ''-'' @ show_nat (nat (- i)) else show_nat (nat i))"

text \<open>The decimal exponent of a positive rational: \<open>10 powi ilog10 q \<le> q < 10 powi (ilog10 q + 1)\<close>.\<close>

definition ilog10 :: "rat \<Rightarrow> int" where
  "ilog10 q =
     (if 1 \<le> q then int (floorlog 10 (nat \<lfloor>q\<rfloor>)) - 1
      else - int (floorlog 10 (nat (\<lceil>1 / q\<rceil> - 1))))"

text \<open>
  \<open>Number::toString\<close> of a positive finite \<open>x\<close> looks for integers \<open>n\<close>, \<open>k\<close>, \<open>s\<close> with
  \<open>k \<ge> 1\<close>, \<open>10 ^ (k - 1) \<le> s < 10 ^ k\<close>, \<open>s * 10 powi (n - k)\<close> rounding to \<open>x\<close>, and
  \<open>k\<close> as small as possible; among several \<open>s\<close>, the one nearest to \<open>x\<close>.
  \<open>digit_candidates x k\<close> are the pairs \<open>(n, s)\<close> for a given \<open>k\<close>; seventeen digits
  always suffice.
\<close>

definition digit_candidates :: "rat \<Rightarrow> nat \<Rightarrow> (int \<times> int) list" where
  "digit_candidates x k =
     concat (map (\<lambda>n. map (\<lambda>s. (n, s))
                         (filter (\<lambda>s. 10 ^ (k - 1) \<le> s \<and> s < 10 ^ k
                                      \<and> fl64 (of_int s * 10 powi (n - int k)) = Fin x)
                            [\<lfloor>x / 10 powi (n - int k)\<rfloor>, \<lceil>x / 10 powi (n - int k)\<rceil>]))
                 [ilog10 x + 1, ilog10 x + 2])"

definition nearest_candidate :: "rat \<Rightarrow> nat \<Rightarrow> (int \<times> int) list \<Rightarrow> int \<times> int" where
  "nearest_candidate x k cs =
     foldl (\<lambda>(n, s) (n', s').
              if \<bar>of_int s' * 10 powi (n' - int k) - x\<bar> < \<bar>of_int s * 10 powi (n - int k) - x\<bar>
              then (n', s') else (n, s))
       (hd cs) (tl cs)"

definition shortest_digits :: "rat \<Rightarrow> int \<times> nat \<times> int" where
  "shortest_digits x =
     (case filter (\<lambda>k. digit_candidates x k \<noteq> []) [1 ..< 18] of
        [] \<Rightarrow> (ilog10 x + 1, 17, round_half_even (x / 10 powi (ilog10 x + 1 - 17)))
      | k # _ \<Rightarrow> (case nearest_candidate x k (digit_candidates x k) of (n, s) \<Rightarrow> (n, k, s)))"

definition format_digits :: "int \<Rightarrow> nat \<Rightarrow> string \<Rightarrow> string" where
  "format_digits n k ds =
     (if int k \<le> n \<and> n \<le> 21 then ds @ replicate (nat n - k) CHR ''0''
      else if 0 < n \<and> n \<le> 21 then take (nat n) ds @ ''.'' @ drop (nat n) ds
      else if - 6 < n \<and> n \<le> 0 then ''0.'' @ replicate (nat (- n)) CHR ''0'' @ ds
      else (if k = 1 then ds else take 1 ds @ ''.'' @ drop 1 ds)
           @ ''e'' @ (if n - 1 < 0 then ''-'' else ''+'') @ show_nat (nat \<bar>n - 1\<bar>))"

text \<open>
  \<open>String(x)\<close> and \<open>`${x}`\<close> for a number. An integer of magnitude up to \<open>2 ^ 53\<close> is
  printed with all its digits (there the neighbouring numbers are at least 1 away, so
  the shortest digits are the integer's own).
\<close>

definition num_to_string :: "jsnum \<Rightarrow> string" where
  "num_to_string x =
     (case x of
        NaN \<Rightarrow> ''NaN''
      | PInf \<Rightarrow> ''Infinity''
      | NInf \<Rightarrow> ''-Infinity''
      | Fin q \<Rightarrow>
          if of_int \<lfloor>q\<rfloor> = q \<and> \<bar>q\<bar> \<le> 2 ^ 53 then show_int \<lfloor>q\<rfloor>
          else (case shortest_digits \<bar>q\<bar> of
                  (n, k, s) \<Rightarrow> (if q < 0 then ''-'' else []) @ format_digits n k (show_nat (nat s))))"

text \<open>A template literal prints \<open>undefined\<close> (here \<open>None\<close>) by its name.\<close>

definition template_string :: "jsnum option \<Rightarrow> string" where
  "template_string v = (case v of None \<Rightarrow> ''undefined'' | Some x \<Rightarrow> num_to_string x)"

section \<open>String helpers\<close>

text \<open>\<open>s.split(c)\<close> for a one-character separator; the empty string gives one empty part.\<close>

fun split_on :: "char \<Rightarrow> string \<Rightarrow> string list" where
  "split_on c [] = [[]]"
| "split_on c (x # xs) =
     (if x = c then [] # split_on c xs
      else (case split_on c xs of w # ws \<Rightarrow> (x # w) # ws | [] \<Rightarrow> [[x]]))"

definition padStart :: "nat \<Rightarrow> char \<Rightarrow> string \<Rightarrow> string" where
  "padStart n c s = replicate (n - length s) c @ s"

text \<open>\<open>xs[i]\<close>, \<open>undefined\<close> out of range.\<close>

definition nth_opt :: "'a list \<Rightarrow> nat \<Rightarrow> 'a option" where
  "nth_opt xs i = (if i < length xs then Some (xs ! i) else None)"

section \<open>The day screen\<close>

text \<open>A catalog reference held by an entry: \<open>null\<close>, \<open>undefined\<close> or an id.\<close>

datatype jsid = Null | Undefined | Id int

text \<open>\<open>x != null\<close> is false exactly for \<open>null\<close> and \<open>undefined\<close>.\<close>

definition not_nullish :: "jsid \<Rightarrow> bool" where
  "not_nullish x = (x \<noteq> Null \<and> x \<noteq> Undefined)"

text \<open>
  The entries of the screen's state. The numeric fields hold text: what the form's inputs
  contain, or \<open>String\<close> of what the server sent.
\<close>

record strength_entry =
  exercise_id :: jsid
  exercise_name :: string
  muscle_group :: string
  sets :: string
  reps :: string
  weight :: string

record cardio_entry =
  cardio_type_id :: jsid
  cardio_type_name :: string
  minutes :: string
  distance :: string

text \<open>The payload of a day save; \<open>None\<close> in \<open>p_distance\<close> is \<open>null\<close>.\<close>

record payload_entry =
  p_exercise_id :: jsid
  p_sets :: jsnum
  p_reps :: jsnum
  p_weight :: string

record payload_cardio =
  p_cardio_type_id :: jsid
  p_minutes :: jsnum
  p_distance :: "string option"

record payload =
  p_date :: string
  p_notes :: string
  p_entries :: "payload_entry list"
  p_cardio_entries :: "payload_cardio list"

definition payload_of_strength :: "strength_entry \<Rightarrow> payload_entry" where
  "payload_of_strength e =
     \<lparr> p_exercise_id = exercise_id e,
       p_sets = Math_max (Fin 1) (js_or (parseInt (sets e)) (Fin 1)),
       p_reps = Math_max (Fin 1) (js_or (parseInt (reps e)) (Fin 1)),
       p_weight = num_to_string (js_or (parseFloat (weight e)) (Fin 0)) \<rparr>"

definition payload_of_cardio :: "cardio_entry \<Rightarrow> payload_cardio" where
  "payload_of_cardio c =
     \<lparr> p_cardio_type_id = cardio_type_id c,
       p_minutes = Math_max (Fin 1) (js_or (parseInt (minutes c)) (Fin 1)),
       p_distance =
         (if distance c \<noteq> [] then Some (num_to_string (js_or (parseFloat (distance c)) (Fin 0)))
          else None) \<rparr>"

text \<open>The state of the screen: the date of the route, the entry lists and the refs that mirror them.\<close>

record day_screen =
  date :: string
  entries :: "strength_entry list"
  cardioEntries :: "cardio_entry list"
  entriesRef :: "strength_entry list"
  cardioEntriesRef :: "cardio_entry list"
  notesRef :: string

text \<open>The payload \<open>saveWorkout\<close> builds from the lists it is given.\<close>

definition build_payload ::
  "day_screen \<Rightarrow> strength_entry list \<Rightarrow> cardio_entry list \<Rightarrow> payload" where
  "build_payload s newEntries newCardioEntries =
     (let validEntries = filter (\<lambda>e. not_nullish (exercise_id e)) newEntries;
          validCardioEntries = filter (\<lambda>c. not_nullish (cardio_type_id c)) newCardioEntries
      in \<lparr> p_date = date s,
           p_notes = notesRef s,
           p_entries = map payload_of_strength validEntries,
           p_cardio_entries = map payload_of_cardio validCardioEntries \<rparr>)"

text \<open>
  \<open>saveWorkout\<close> sends the payload and returns whether the request succeeded; the
  server is the parameter \<open>backend\<close>, true when the mutation resolves. The messages
  shown to the user are left out.
\<close>

definition saveWorkout ::
  "(payload \<Rightarrow> bool) \<Rightarrow> day_screen \<Rightarrow> strength_entry list \<Rightarrow> cardio_entry list \<Rightarrow> bool" where
  "saveWorkout backend s newEntries newCardioEntries =
     backend (build_payload s newEntries newCardioEntries)"

text \<open>\<open>xs.filter((_, i) => i !== index)\<close>.\<close>

definition filter_index :: "nat \<Rightarrow> 'a list \<Rightarrow> 'a list" where
  "filter_index index xs = map snd (filter (\<lambda>(i, _). i \<noteq> index) (enumerate 0 xs))"

text \<open>The effects that copy the state into the refs after a render.\<close>

definition sync_refs :: "day_screen \<Rightarrow> day_screen" where
  "sync_refs s = s\<lparr>entriesRef := entries s, cardioEntriesRef := cardioEntries s\<rparr>"

text \<open>
  The delete handlers; \<open>confirmed\<close> is the answer to \<open>window.confirm\<close>. The list is
  updated before the save and put back when the save fails.
\<close>

definition handleDeleteStrength ::
  "bool \<Rightarrow> (payload \<Rightarrow> bool) \<Rightarrow> nat \<Rightarrow> day_screen \<Rightarrow> day_screen" where
  "handleDeleteStrength confirmed backend index s =
     (if \<not> confirmed then s
      else let currentEntries = entriesRef s;
               currentCardioEntries = cardioEntriesRef s;
               newEntries = filter_index index currentEntries;
               s1 = s\<lparr>entries := newEntries\<rparr>;
               success = saveWorkout backend s1 newEntries currentCardioEntries
           in if \<not> success then s1\<lparr>entries := currentEntries\<rparr> else s1)"

definition handleDeleteCardio ::
  "bool \<Rightarrow> (payload \<Rightarrow> bool) \<Rightarrow> nat \<Rightarrow> day_screen \<Rightarrow> day_screen" where
  "handleDeleteCardio confirmed backend index s =
     (if \<not> confirmed then s
      else let currentEntries = entriesRef s;
               currentCardioEntries = cardioEntriesRef s;
               newCardioEntries = filter_index index currentCardioEntries;
               s1 = s\<lparr>cardioEntries := newCardioEntries\<rparr>;
               success = saveWorkout backend s1 currentEntries newCardioEntries
           in if \<not> success then s1\<lparr>cardioEntries := currentCardioEntries\<rparr> else s1)"

text \<open>The totals shown on the screen, each a \<open>reduce\<close> from 0.\<close>

definition localTotalWeight :: "strength_entry list \<Rightarrow> jsnum" where
  "localTotalWeight es =
     foldl (\<lambda>sum entry.
              js_add sum
                (js_mul (js_mul (js_or (parseInt (sets entry)) (Fin 0))
                                (js_or (parseInt (reps entry)) (Fin 0)))
                        (js_or (parseFloat (weight entry)) (Fin 0))))
       (Fin 0) es"

definition localTotalReps :: "strength_entry list \<Rightarrow> jsnum" where
  "localTotalReps es =
     foldl (\<lambda>sum entry.
              js_add sum
                (js_mul (js_or (parseInt (sets entry)) (Fin 0))
                        (js_or (parseInt (reps entry)) (Fin 0))))
       (Fin 0) es"

definition localTotalCardioMinutes :: "cardio_entry list \<Rightarrow> jsnum" where
  "localTotalCardioMinutes cs =
     foldl (\<lambda>sum entry. js_add sum (js_or (parseInt (minutes entry)) (Fin 0))) (Fin 0) cs"

text \<open>
  The sums the totals stand for, over the integers and the decimal that the fields hold
  (0 where a field holds none).
\<close>

definition int_field :: "string \<Rightarrow> int" where
  "int_field str = (case int_literal str of None \<Rightarrow> 0 | Some n \<Rightarrow> n)"

definition decimal_field :: "string \<Rightarrow> rat" where
  "decimal_field str =
     (case fst (scan_decimal (dropWhile is_ws str)) of SVal q \<Rightarrow> q | _ \<Rightarrow> 0)"

definition exact_total_weight :: "strength_entry list \<Rightarrow> rat" where
  "exact_total_weight es =
     (\<Sum>e\<leftarrow>es. of_int (int_field (sets e)) * of_int (int_field (reps e)) * decimal_field (weight e))"

definition exact_total_reps :: "strength_entry list \<Rightarrow> int" where
  "exact_total_reps es = (\<Sum>e\<leftarrow>es. int_field (sets e) * int_field (reps e))"

definition exact_total_cardio_minutes :: "cardio_entry list \<Rightarrow> int" where
  "exact_total_cardio_minutes cs = (\<Sum>c\<leftarrow>cs. int_field (minutes c))"

section \<open>The cache tags of the API slice\<close>

datatype tag_type = Workout | MonthWorkouts | Analytics | Exercise | CardioType

text \<open>A tag is a type with an optional id; a tag written as a bare string has no id.\<close>

record tag =
  tag_type :: tag_type
  tag_id :: "string option"

definition getMonthWorkouts_providesTags :: "int \<Rightarrow> int \<Rightarrow> tag list" where
  "getMonthWorkouts_providesTags year month =
     [\<lparr>tag_type = MonthWorkouts,
        tag_id = Some (show_int year @ ''-'' @ show_int month)\<rparr>,
      \<lparr>tag_type = Workout, tag_id = None\<rparr>]"

definition getDayWorkout_providesTags :: "string \<Rightarrow> tag list" where
  "getDayWorkout_providesTags d = [\<lparr>tag_type = Workout, tag_id = Some d\<rparr>]"

definition getAnalyticsSummary_providesTags :: "tag list" where
  "getAnalyticsSummary_providesTags = [\<lparr>tag_type = Analytics, tag_id = None\<rparr>]"

definition getExerciseHistory_providesTags :: "int \<Rightarrow> tag list" where
  "getExerciseHistory_providesTags exerciseId =
     [\<lparr>tag_type = Analytics, tag_id = Some (''exercise-'' @ show_int exerciseId)\<rparr>]"

text \<open>
  \<open>invalidatesTags\<close> of \<open>saveDayWorkout\<close>: the year and the month are the first two
  parts of the date, split on \<open>-\<close>, as numbers (\<open>undefined\<close> where a part is missing).
\<close>

definition saveDayWorkout_invalidatesTags :: "string \<Rightarrow> tag list" where
  "saveDayWorkout_invalidatesTags d =
     (let parts = map Number (split_on CHR ''-'' d);
          year = nth_opt parts 0;
          month = nth_opt parts 1
      in [\<lparr>tag_type = Workout, tag_id = Some d\<rparr>,
          \<lparr>tag_type = MonthWorkouts,
            tag_id = Some (template_string year @ ''-'' @ template_string month)\<rparr>,
          \<lparr>tag_type = Analytics, tag_id = None\<rparr>])"

text \<open>
  How the query library (RTK Query, which the slice is built with and which is not part
  of the repository) matches tags: provided tags are filed under their type and their
  id, those without an id under a reserved key; an invalidated tag without an id reaches
  every provided tag of its type, one with an id reaches the provided tags filed under
  that id.
\<close>

definition provided_key :: "tag \<Rightarrow> string" where
  "provided_key t = (case tag_id t of None \<Rightarrow> ''__internal_without_id'' | Some i \<Rightarrow> i)"

definition tag_reaches :: "tag \<Rightarrow> tag \<Rightarrow> bool" where
  "tag_reaches invalidating provided =
     (tag_type invalidating = tag_type provided \<and>
      (case tag_id invalidating of None \<Rightarrow> True | Some i \<Rightarrow> provided_key provided = i))"

text \<open>A cached query is invalidated when one of the invalidated tags reaches one of its tags.\<close>

definition invalidated :: "tag list \<Rightarrow> tag list \<Rightarrow> bool" where
  "invalidated invs provs = list_ex (\<lambda>i. list_ex (tag_reaches i) provs) invs"

section \<open>Dates\<close>

text \<open>
  The time values and the day arithmetic of the language's \<open>Date\<close>: milliseconds
  since 1 January 1970 UTC, in the proleptic Gregorian calendar.
\<close>

definition msPerDay :: int where
  "msPerDay = 86400000"

definition Day :: "int \<Rightarrow> int" where
  "Day t = t div msPerDay"

definition DaysInYear :: "int \<Rightarrow> int" where
  "DaysInYear y =
     (if y mod 4 \<noteq> 0 then 365
      else if y mod 100 \<noteq> 0 then 366
      else if y mod 400 \<noteq> 0 then 365
      else 366)"

definition DayFromYear :: "int \<Rightarrow> int" where
  "DayFromYear y =
     365 * (y - 1970) + (y - 1969) div 4 - (y - 1901) div 100 + (y - 1601) div 400"

text \<open>
  \<open>YearFromTime t\<close> is the largest \<open>y\<close> with \<open>DayFromYear y \<le> Day t\<close>: it is within one
  of the estimate from the mean year of 365.2425 days.
\<close>

definition YearFromDay :: "int \<Rightarrow> int" where
  "YearFromDay d =
     (let ye = 1970 + (400 * d) div 146097
      in if DayFromYear (ye + 1) \<le> d then ye + 1
         else if DayFromYear ye \<le> d then ye
         else ye - 1)"

definition YearFromTime :: "int \<Rightarrow> int" where
  "YearFromTime t = YearFromDay (Day t)"

definition InLeapYear :: "int \<Rightarrow> int" where
  "InLeapYear t = (if DaysInYear (YearFromTime t) = 366 then 1 else 0)"

definition DayWithinYear :: "int \<Rightarrow> int" where
  "DayWithinYear t = Day t - DayFromYear (YearFromTime t)"

definition MonthFromTime :: "int \<Rightarrow> int" where
  "MonthFromTime t =
     (let d = DayWithinYear t; l = InLeapYear t
      in if d < 31 then 0
         else if d < 59 + l then 1
         else if d < 90 + l then 2
         else if d < 120 + l then 3
         else if d < 151 + l then 4
         else if d < 181 + l then 5
         else if d < 212 + l then 6
         else if d < 243 + l then 7
         else if d < 273 + l then 8
         else if d < 304 + l then 9
         else if d < 334 + l then 10
         else 11)"

definition DateFromTime :: "int \<Rightarrow> int" where
  "DateFromTime t =
     (let d = DayWithinYear t; l = InLeapYear t; m = MonthFromTime t
      in if m = 0 then d + 1
         else if m = 1 then d - 30
         else if m = 2 then d - 58 - l
         else if m = 3 then d - 89 - l
         else if m = 4 then d - 119 - l
         else if m = 5 then d - 150 - l
         else if m = 6 then d - 180 - l
         else if m = 7 then d - 211 - l
         else if m = 8 then d - 242 - l
         else if m = 9 then d - 272 - l
         else if m = 10 then d - 303 - l
         else d - 333 - l)"

definition WeekDay :: "int \<Rightarrow> int" where
  "WeekDay t = (Day t + 4) mod 7"

text \<open>The number of days of a year before its month \<open>mn\<close>, from 0 for January.\<close>

definition days_before_month :: "int \<Rightarrow> int \<Rightarrow> int" where
  "days_before_month l mn =
     (if mn = 0 then 0
      else if mn = 1 then 31
      else [59, 90, 120, 151, 181, 212, 243, 273, 304, 334] ! nat (mn - 2) + l)"

text \<open>
  \<open>MakeDay\<close>: months outside 0 to 11 carry into the year; the day of the month is
  added as a number of days, so day 0 is the last day of the month before.
\<close>

definition MakeDay :: "int \<Rightarrow> int \<Rightarrow> int \<Rightarrow> int" where
  "MakeDay year month dt =
     (let ym = year + month div 12; mn = month mod 12
      in DayFromYear ym + days_before_month (if DaysInYear ym = 366 then 1 else 0) mn + dt - 1)"

text \<open>
  A time zone gives the offset of local time from UTC, at a UTC time and at a local time
  (\<open>LocalTZA(t, true)\<close> and \<open>LocalTZA(t, false)\<close>).
\<close>

record zone =
  offset_at_utc :: "int \<Rightarrow> int"
  offset_at_local :: "int \<Rightarrow> int"

definition LocalTime :: "zone \<Rightarrow> int \<Rightarrow> int" where
  "LocalTime z t = t + offset_at_utc z t"

definition UTC :: "zone \<Rightarrow> int \<Rightarrow> int" where
  "UTC z t = t - offset_at_local z t"

datatype jsdate = InvalidDate | DateAt int

definition TimeClip :: "int \<Rightarrow> jsdate" where
  "TimeClip t = (if 8640000000000000 < \<bar>t\<bar> then InvalidDate else DateAt t)"

text \<open>\<open>ToIntegerOrInfinity\<close> of a finite number: truncation towards zero.\<close>

definition trunc :: "rat \<Rightarrow> int" where
  "trunc q = (if 0 \<le> q then \<lfloor>q\<rfloor> else \<lceil>q\<rceil>)"

text \<open>
  \<open>new Date(year, month, day)\<close>: local midnight of that day; a year from 0 to 99 is
  read as 1900 + year; invalid when an argument is not finite or the time is out of range.
\<close>

definition new_Date :: "zone \<Rightarrow> jsnum \<Rightarrow> jsnum \<Rightarrow> jsnum \<Rightarrow> jsdate" where
  "new_Date z year month day =
     (case (year, month, day) of
        (Fin y, Fin m, Fin d) \<Rightarrow>
          (let yi = trunc y;
               yr = (if 0 \<le> yi \<and> yi \<le> 99 then 1900 + yi else yi);
               finalDate = MakeDay yr (trunc m) (trunc d) * msPerDay
           in TimeClip (UTC z finalDate))
      | _ \<Rightarrow> InvalidDate)"

text \<open>The getters, in local time; \<open>None\<close> is the \<open>NaN\<close> of an invalid date.\<close>

definition getFullYear :: "zone \<Rightarrow> jsdate \<Rightarrow> int option" where
  "getFullYear z dv = (case dv of InvalidDate \<Rightarrow> None | DateAt t \<Rightarrow> Some (YearFromTime (LocalTime z t)))"

definition getMonth :: "zone \<Rightarrow> jsdate \<Rightarrow> int option" where
  "getMonth z dv = (case dv of InvalidDate \<Rightarrow> None | DateAt t \<Rightarrow> Some (MonthFromTime (LocalTime z t)))"

definition getDate :: "zone \<Rightarrow> jsdate \<Rightarrow> int option" where
  "getDate z dv = (case dv of InvalidDate \<Rightarrow> None | DateAt t \<Rightarrow> Some (DateFromTime (LocalTime z t)))"

definition getDay :: "zone \<Rightarrow> jsdate \<Rightarrow> int option" where
  "getDay z dv = (case dv of InvalidDate \<Rightarrow> None | DateAt t \<Rightarrow> Some (WeekDay (LocalTime z t)))"

fun js_neg :: "jsnum \<Rightarrow> jsnum" where
  "js_neg NaN = NaN"
| "js_neg PInf = NInf"
| "js_neg NInf = PInf"
| "js_neg (Fin a) = Fin (- a)"

definition js_sub :: "jsnum \<Rightarrow> jsnum \<Rightarrow> jsnum" where
  "js_sub a b = js_add a (js_neg b)"

text \<open>\<open>ToNumber\<close> of a number or \<open>undefined\<close>.\<close>

definition to_number :: "jsnum option \<Rightarrow> jsnum" where
  "to_number v = (case v of None \<Rightarrow> NaN | Some x \<Rightarrow> x)"

text \<open>\<open>parseLocalDate\<close>: \<open>None\<close> is the \<open>null\<close> returned for an empty string.\<close>

definition parseLocalDate :: "zone \<Rightarrow> string \<Rightarrow> jsdate option" where
  "parseLocalDate z dateStr =
     (if dateStr = [] then None
      else let parts = map Number (split_on CHR ''-'' dateStr);
               year = nth_opt parts 0;
               month = nth_opt parts 1;
               day = nth_opt parts 2
           in Some (new_Date z (to_number year) (js_sub (to_number month) (Fin 1)) (to_number day)))"

section \<open>The calendar screen\<close>

definition VALID_YEARS :: "int list" where
  "VALID_YEARS = [2025, 2026]"

text \<open>A cell of the grid: a blank with its key, or a day with its date string, mark and key.\<close>

datatype cell = BlankCell string | DayCell int string bool string

definition is_day_cell :: "cell \<Rightarrow> bool" where
  "is_day_cell c = (case c of BlankCell _ \<Rightarrow> False | DayCell _ _ _ _ \<Rightarrow> True)"

definition cell_dateStr :: "cell \<Rightarrow> string" where
  "cell_dateStr c = (case c of BlankCell _ \<Rightarrow> [] | DayCell _ s _ _ \<Rightarrow> s)"

text \<open>The date string of a day cell; the year and the month are the integers the store holds.\<close>

definition dateStr_of :: "int \<Rightarrow> int \<Rightarrow> int \<Rightarrow> string" where
  "dateStr_of selectedYear selectedMonth day =
     show_int selectedYear @ ''-'' @ padStart 2 CHR ''0'' (show_int selectedMonth)
       @ ''-'' @ padStart 2 CHR ''0'' (show_int day)"

text \<open>
  \<open>calendarCells\<close>: the leading blanks, one per week day before the first of the month,
  then the days. A loop whose bound is \<open>NaN\<close> does not run.
\<close>

definition calendarCells :: "zone \<Rightarrow> int \<Rightarrow> int \<Rightarrow> string set \<Rightarrow> cell list" where
  "calendarCells z selectedYear selectedMonth workoutDatesSet =
     (let firstDayOfMonth =
            getDay z (new_Date z (Fin (of_int selectedYear)) (Fin (of_int (selectedMonth - 1))) (Fin 1));
          daysInMonth =
            getDate z (new_Date z (Fin (of_int selectedYear)) (Fin (of_int selectedMonth)) (Fin 0))
      in (case firstDayOfMonth of
            None \<Rightarrow> []
          | Some f \<Rightarrow> map (\<lambda>i. BlankCell (''blank-'' @ show_int i)) [0 .. f - 1])
         @ (case daysInMonth of
              None \<Rightarrow> []
            | Some n \<Rightarrow>
                map (\<lambda>day. DayCell day (dateStr_of selectedYear selectedMonth day)
                              (dateStr_of selectedYear selectedMonth day \<in> workoutDatesSet)
                              (dateStr_of selectedYear selectedMonth day))
                  [1 .. n]))"

section \<open>The calendar the claims refer to\<close>

text \<open>The Gregorian leap rule and the lengths of the months, as the calendar defines them.\<close>

definition gregorian_leap :: "int \<Rightarrow> bool" where
  "gregorian_leap y = (y mod 4 = 0 \<and> (y mod 100 \<noteq> 0 \<or> y mod 400 = 0))"

definition gregorian_days_in_month :: "int \<Rightarrow> int \<Rightarrow> int" where
  "gregorian_days_in_month y m =
     (if m = 2 then (if gregorian_leap y then 29 else 28)
      else if m = 4 \<or> m = 6 \<or> m = 9 \<or> m = 11 then 30
      else 31)"

text \<open>The text \<open>YYYY-MM-DD\<close> of a date.\<close>

definition iso_date :: "nat \<Rightarrow> nat \<Rightarrow> nat \<Rightarrow> string" where
  "iso_date y m d =
     padStart 4 CHR ''0'' (show_nat y) @ ''-'' @ padStart 2 CHR ''0'' (show_nat m)
       @ ''-'' @ padStart 2 CHR ''0'' (show_nat d)"

definition dec_digit :: "char \<Rightarrow> bool" where
  "dec_digit c = is_digit 10 c"

section \<open>The coercion policy the claims refer to\<close>

text \<open>
  A count (sets, reps, minutes): the integer the text holds, 1 when it holds none or one
  below 1. A weight: the decimal the text holds, 0 when it holds none.
\<close>

definition coerce_count :: "string \<Rightarrow> jsnum" where
  "coerce_count str =
     (case int_literal str of
        None \<Rightarrow> Fin 1
      | Some n \<Rightarrow> if n < 1 then Fin 1 else fl64 (of_int n))"




section \<open>Example inputs\<close>

definition bench_press :: strength_entry where
  "bench_press =
     \<lparr> exercise_id = Id 1, exercise_name = ''Bench Press'', muscle_group = ''chest'',
       sets = ''3'', reps = ''10'', weight = ''135.5'' \<rparr>"

definition orphan_entry :: strength_entry where
  "orphan_entry = bench_press\<lparr>exercise_id := Null\<rparr>"

definition blank_entry :: strength_entry where
  "blank_entry = bench_press\<lparr>sets := ''0'', reps := ''abc'', weight := ''heavy''\<rparr>"

definition negative_entry :: strength_entry where
  "negative_entry = bench_press\<lparr>weight := ''-5''\<rparr>"

definition heavy_entry :: strength_entry where
  "heavy_entry = bench_press\<lparr>sets := ''1'', reps := ''1'', weight := ''90071992547409.93''\<rparr>"

definition treadmill :: cardio_entry where
  "treadmill =
     \<lparr> cardio_type_id = Id 2, cardio_type_name = ''Treadmill'', minutes = ''30'', distance = '''' \<rparr>"

definition orphan_cardio :: cardio_entry where
  "orphan_cardio = treadmill\<lparr>cardio_type_id := Undefined\<rparr>"

definition example_screen :: day_screen where
  "example_screen =
     \<lparr> date = ''2025-12-08'', entries = [bench_press, orphan_entry, blank_entry],
       cardioEntries = [treadmill, orphan_cardio],
       entriesRef = [bench_press, orphan_entry, blank_entry],
       cardioEntriesRef = [treadmill, orphan_cardio], notesRef = ''legs tomorrow'' \<rparr>"

text \<open>A zone five hours behind UTC all year.\<close>

definition eastern :: zone where
  "eastern = \<lparr> offset_at_utc = (\<lambda>t. - 18000000), offset_at_local = (\<lambda>t. - 18000000) \<rparr>"

section \<open>Rounding to binary64\<close>

lemma ilog2_ge1:
  assumes "1 \<le> q"
  shows "2 powi (ilog2 q) \<le> q \<and> q < 2 powi (ilog2 q + 1)"
proof -
  define n where "n = nat \<lfloor>q\<rfloor>"
  define k where "k = floorlog 2 n"
  have n1: "0 < n" using assms by (simp add: n_def)
  have b: "2 ^ (k - 1) \<le> n \<and> n < 2 ^ k"
    unfolding k_def using floorlog_bounds [of n 2] n1 by simp
  have k1: "0 < k" using b n1 by (cases k) auto
  have nq: "rat_of_nat n \<le> q" using assms by (simp add: n_def)
  have qn: "q < rat_of_nat n + 1" using assms by (simp add: n_def) linarith
  have e: "ilog2 q = int k - 1" using assms by (simp add: ilog2_def n_def k_def)
  have "(2::rat) ^ (k - 1) \<le> rat_of_nat n"
    using b by (metis of_nat_le_iff of_nat_numeral of_nat_power)
  hence l: "(2::rat) ^ (k - 1) \<le> q" using nq by linarith
  have "n + 1 \<le> 2 ^ k" using b by simp
  hence "rat_of_nat (n + 1) \<le> 2 ^ k"
    by (metis of_nat_le_iff of_nat_numeral of_nat_power)
  hence u: "q < 2 ^ k" using qn by simp
  have p1: "(2::rat) powi (int k - 1) = 2 ^ (k - 1)"
    using k1 by (simp add: power_int_def nat_diff_distrib')
  have p2: "(2::rat) powi (int k - 1 + 1) = 2 ^ k" by simp
  show ?thesis unfolding e p1 p2 using l u by simp
qed

lemma ilog2_lt1:
  assumes "0 < q" "q < 1"
  shows "2 powi (ilog2 q) \<le> q \<and> q < 2 powi (ilog2 q + 1)"
proof -
  define c where "c = \<lceil>1 / q\<rceil>"
  define n where "n = nat (c - 1)"
  define k where "k = floorlog 2 n"
  have iq: "1 < 1 / q" using assms by simp
  hence c2: "2 \<le> c" unfolding c_def by linarith
  have n1: "0 < n" using c2 by (simp add: n_def)
  have b: "2 ^ (k - 1) \<le> n \<and> n < 2 ^ k"
    unfolding k_def using floorlog_bounds [of n 2] n1 by simp
  have k1: "0 < k" using b n1 by (cases k) auto
  have e: "ilog2 q = - int k" using assms by (simp add: ilog2_def n_def k_def c_def)
  have cn: "c = int n + 1" using c2 by (simp add: n_def)
  have "int n + 1 \<le> 2 ^ k" using b by (metis of_nat_less_iff of_nat_numeral of_nat_power zless_imp_add1_zle)
  hence "c \<le> 2 ^ k" using cn by simp
  hence "1 / q \<le> of_int (2 ^ k)" unfolding c_def by (simp only: ceiling_le_iff)
  hence u1: "1 / q \<le> 2 ^ k" by simp
  have "(2::int) ^ (k - 1) \<le> int n" using b by (metis of_nat_le_iff of_nat_numeral of_nat_power)
  hence "(2::int) ^ (k - 1) < c" using cn by simp
  hence "of_int (2 ^ (k - 1)) < 1 / q" unfolding c_def by (simp only: less_ceiling_iff)
  hence l1: "2 ^ (k - 1) < 1 / q" by simp
  have A: "1 / 2 ^ k \<le> q" using u1 assms by (simp add: field_simps)
  have B: "q < 1 / 2 ^ (k - 1)" using l1 assms by (simp add: field_simps)
  have p1: "(2::rat) powi (- int k) = 1 / 2 ^ k" by (simp add: power_int_minus_divide)
  have "- int k + 1 = - int (k - 1)" using k1 by simp
  hence p2: "(2::rat) powi (- int k + 1) = 1 / 2 ^ (k - 1)"
    by (simp only: power_int_minus_divide power_int_of_nat)
  show ?thesis unfolding e p1 p2 using A B by simp
qed

lemma ilog2_bounds:
  "0 < q \<Longrightarrow> 2 powi (ilog2 q) \<le> q \<and> q < 2 powi (ilog2 q + 1)"
  using ilog2_ge1 [of q] ilog2_lt1 [of q] by (cases "1 \<le> q") auto

lemma powi2_less_cancel: "(2::rat) powi a < 2 powi b \<Longrightarrow> a < b"
  using power_int_increasing [of b a "2::rat"] by (cases "a < b") auto

lemma ilog2_unique:
  assumes "2 powi e \<le> q" "q < 2 powi (e + 1)"
  shows "ilog2 q = e"
proof -
  have "(0::rat) < 2 powi e" by simp
  hence q0: "0 < q" using assms(1) by linarith
  note b = ilog2_bounds [OF q0]
  have "(2::rat) powi e < 2 powi (ilog2 q + 1)" using assms b by linarith
  hence 1: "e < ilog2 q + 1" by (rule powi2_less_cancel)
  have "(2::rat) powi (ilog2 q) < 2 powi (e + 1)" using assms b by linarith
  hence 2: "ilog2 q < e + 1" by (rule powi2_less_cancel)
  show ?thesis using 1 2 by simp
qed


lemma round_half_even_of_int [simp]: "round_half_even (of_int n) = n"
  by (simp add: round_half_even_def)


lemma round_half_even_near:
  assumes "\<bar>x - of_int n\<bar> < 1 / 2"
  shows "round_half_even x = n"
proof -
  have "\<lfloor>x\<rfloor> = n \<or> \<lfloor>x\<rfloor> = n - 1" using assms by linarith
  then show ?thesis
  proof
    assume f: "\<lfloor>x\<rfloor> = n"
    hence "x - of_int n < 1 / 2" using assms by linarith
    then show ?thesis using f by (simp add: round_half_even_def Let_def)
  next
    assume f: "\<lfloor>x\<rfloor> = n - 1"
    have "1 / 2 < x - of_int (n - 1)" using assms by (simp add: abs_if split: if_splits)
    then show ?thesis using f by (simp add: round_half_even_def Let_def)
  qed
qed

lemma fl64_not_NaN [simp]: "fl64 q \<noteq> NaN"
  by (simp add: fl64_def Let_def)

lemma fl64_0 [simp]: "fl64 0 = Fin 0"
  by (simp add: fl64_def)

lemma fl64_normal:
  assumes "2 powi e \<le> a" and "a < 2 powi (e + 1)" and "- 1022 \<le> e"
    and "of_int (round_half_even (a / 2 powi (e - 52))) * 2 powi (e - 52) = m"
    and "m < 2 powi 1024"
  shows "fl64 a = Fin m" and "fl64 (- a) = Fin (- m)"
proof -
  have "(0::rat) < 2 powi e" by simp
  hence a0: "0 < a" using assms(1) by linarith
  have e: "ilog2 a = e" using assms(1,2) by (rule ilog2_unique)
  have mx: "max e (- 1022) = e" using assms(3) by simp
  show "fl64 a = Fin m"
    using a0 assms(4,5) by (simp add: fl64_def e mx Let_def)
  show "fl64 (- a) = Fin (- m)"
    using a0 assms(4,5) by (simp add: fl64_def e mx Let_def)
qed

lemma fl64_near:
  assumes "2 powi e \<le> a" and "a < 2 powi (e + 1)" and "- 1022 \<le> e"
    and "\<bar>a / 2 powi (e - 52) - of_int n\<bar> < 1 / 2"
    and "of_int n * 2 powi (e - 52) = m"
    and "m < 2 powi 1024"
  shows "fl64 a = Fin m" and "fl64 (- a) = Fin (- m)"
proof -
  have r: "round_half_even (a / 2 powi (e - 52)) = n"
    using assms(4) by (rule round_half_even_near)
  have m: "of_int (round_half_even (a / 2 powi (e - 52))) * 2 powi (e - 52) = m"
    using assms(5) by (simp add: r)
  show "fl64 a = Fin m" by (rule fl64_normal(1) [OF assms(1,2,3) m assms(6)])
  show "fl64 (- a) = Fin (- m)" by (rule fl64_normal(2) [OF assms(1,2,3) m assms(6)])
qed

lemma fl64_exact:
  assumes "2 powi e \<le> a" and "a < 2 powi (e + 1)" and "- 1022 \<le> e" and "e < 1024"
    and "a / 2 powi (e - 52) = of_int n"
  shows "fl64 a = Fin a" and "fl64 (- a) = Fin (- a)"
proof -
  have "a = of_int n * 2 powi (e - 52)" using assms(5) by (simp add: field_simps)
  hence m: "of_int (round_half_even (a / 2 powi (e - 52))) * 2 powi (e - 52) = a"
    by (simp add: assms(5))
  have "(2::rat) powi (e + 1) \<le> 2 powi 1024"
    using assms(4) by (intro power_int_increasing) auto
  hence lt: "a < 2 powi 1024" using assms(2) by linarith
  show "fl64 a = Fin a" by (rule fl64_normal(1) [OF assms(1,2,3) m lt])
  show "fl64 (- a) = Fin (- a)" by (rule fl64_normal(2) [OF assms(1,2,3) m lt])
qed



lemma fl64_of_int:
  assumes "\<bar>n\<bar> \<le> 2 ^ 53"
  shows "fl64 (of_int n) = Fin (of_int n)"
proof (cases "n = 0")
  case True
  then show ?thesis by simp
next
  case False
  define a :: rat where "a = of_int \<bar>n\<bar>"
  define e where "e = ilog2 a"
  have a1: "1 \<le> a" using False by (simp add: a_def)
  have b: "2 powi e \<le> a \<and> a < 2 powi (e + 1)"
    unfolding e_def using ilog2_bounds [of a] a1 by simp
  have "(2::rat) powi 0 < 2 powi (e + 1)" using a1 b by simp
  hence e0: "0 \<le> e" using powi2_less_cancel [of 0 "e + 1"] by simp
  have a53: "a \<le> 2 powi 53" using assms unfolding a_def
    by (metis of_int_le_iff of_int_numeral of_int_power power_int_numeral)
  moreover have "(2::rat) powi 53 < 2 powi 54" by simp
  ultimately have "(2::rat) powi e < 2 powi 54" using b by linarith
  hence e53: "e \<le> 53" using powi2_less_cancel [of e 54] by simp
  have "\<exists>k. a / 2 powi (e - 52) = of_int k"
  proof (cases "e \<le> 52")
    case True
    have "a / 2 powi (e - 52) = a * 2 powi (52 - e)"
      by (simp add: power_int_diff field_simps)
    also have "\<dots> = a * 2 ^ nat (52 - e)" using True by (simp add: power_int_def)
    also have "\<dots> = of_int (\<bar>n\<bar> * 2 ^ nat (52 - e))" by (simp add: a_def)
    finally show ?thesis by blast
  next
    case False
    hence e: "e = 53" using e53 by simp
    hence "a = 2 powi 53" using a53 b by simp
    hence "a / 2 powi (e - 52) = of_int (2 ^ 52)" using e by simp
    then show ?thesis by blast
  qed
  then obtain k where k: "a / 2 powi (e - 52) = of_int k" by blast
  have r: "fl64 a = Fin a" "fl64 (- a) = Fin (- a)"
    using fl64_exact [of e a k] b e0 e53 k by auto
  show ?thesis
  proof (cases "0 \<le> n")
    case True
    then show ?thesis using r(1) by (simp add: a_def)
  next
    case False
    then show ?thesis using r(2) by (simp add: a_def)
  qed
qed


lemma round_half_even_ge:
  assumes "of_int n \<le> x"
  shows "n \<le> round_half_even x"
proof -
  have "n \<le> \<lfloor>x\<rfloor>" using assms by (simp add: le_floor_iff)
  then show ?thesis by (auto simp: round_half_even_def Let_def)
qed

lemma fl64_ge1:
  assumes "1 \<le> q"
  shows "fl64 q = PInf \<or> (\<exists>r. fl64 q = Fin r \<and> 1 \<le> r)"
proof -
  define e where "e = ilog2 q"
  have q0: "0 < q" using assms by simp
  have b: "2 powi e \<le> q \<and> q < 2 powi (e + 1)"
    unfolding e_def using ilog2_bounds [OF q0] .
  have "(2::rat) powi 0 < 2 powi (e + 1)" using assms b by simp
  hence e0: "0 \<le> e" using powi2_less_cancel [of 0 "e + 1"] by simp
  hence mx: "max e (- 1022) = e" by simp
  define u :: rat where "u = 2 powi (e - 52)"
  have u0: "0 < u" by (simp add: u_def)
  have "2 powi e / u = (2::rat) powi 52" by (simp add: u_def power_int_diff)
  hence "of_int (2 ^ 52) \<le> q / u"
    using b u0 by (simp add: field_simps)
  hence "2 ^ 52 \<le> round_half_even (q / u)" by (rule round_half_even_ge)
  hence "(2::rat) ^ 52 \<le> of_int (round_half_even (q / u))"
    by (metis of_int_le_iff of_int_numeral of_int_power)
  hence "2 ^ 52 * u \<le> of_int (round_half_even (q / u)) * u"
    using u0 by simp
  moreover have "2 ^ 52 * u = 2 powi e" by (simp add: u_def power_int_diff)
  moreover have "(1::rat) \<le> 2 powi e" using e0 by (simp add: power_int_def)
  ultimately have m1: "1 \<le> of_int (round_half_even (q / u)) * u" by linarith
  show ?thesis
    using q0 m1 by (simp add: fl64_def Let_def e_def [symmetric] mx u_def [symmetric])
qed

section \<open>Evaluating the conversions\<close>

lemma digit_char_simps:
  "digit_char 0 = CHR ''0''" "digit_char 1 = CHR ''1''" "digit_char 2 = CHR ''2''"
  "digit_char 3 = CHR ''3''" "digit_char 4 = CHR ''4''" "digit_char 5 = CHR ''5''"
  "digit_char 6 = CHR ''6''" "digit_char 7 = CHR ''7''" "digit_char 8 = CHR ''8''"
  "digit_char 9 = CHR ''9''"
  by code_simp+


lemmas example_defs = bench_press_def orphan_entry_def blank_entry_def negative_entry_def
  heavy_entry_def treadmill_def orphan_cardio_def example_screen_def

section \<open>The save payload\<close>



lemma coerce_count_ge1:
  "coerce_count str = PInf \<or> (\<exists>r. coerce_count str = Fin r \<and> 1 \<le> r)"
proof (cases "int_literal str")
  case None
  then show ?thesis by (simp add: coerce_count_def)
next
  case (Some n)
  show ?thesis
  proof (cases "n < 1")
    case True
    then show ?thesis using Some by (simp add: coerce_count_def)
  next
    case False
    hence "1 \<le> rat_of_int n" by simp
    from fl64_ge1 [OF this] show ?thesis using Some False by (simp add: coerce_count_def)
  qed
qed

lemma filter_index_enumerate:
  "map snd (filter (\<lambda>(j, _). j \<noteq> n + i) (enumerate n xs)) = take i xs @ drop (Suc i) xs"
proof (induction xs arbitrary: n i)
  case Nil
  then show ?case by simp
next
  case (Cons x xs)
  show ?case
  proof (cases i)
    case 0
    have "filter (\<lambda>(j, _). j \<noteq> n) (enumerate (Suc n) xs) = enumerate (Suc n) xs"
      by (rule filter_True) (auto simp: in_set_enumerate_eq)
    then show ?thesis using 0 by simp
  next
    case (Suc k)
    have "map snd (filter (\<lambda>(j, _). j \<noteq> Suc n + k) (enumerate (Suc n) xs))
            = take k xs @ drop (Suc k) xs"
      by (rule Cons.IH)
    then show ?thesis using Suc by simp
  qed
qed

lemma filter_index_eq: "filter_index i xs = take i xs @ drop (Suc i) xs"
  using filter_index_enumerate [of 0 i xs] by (simp add: filter_index_def)

text \<open>
  Claim C2. A strength entry whose \<open>exercise_id\<close> is \<open>null\<close> or \<open>undefined\<close> and a cardio
  entry whose \<open>cardio_type_id\<close> is, are left out of the payload, the others are kept in
  order; no entry of the payload carries such a reference; the outcome of the save is
  the server's answer to that payload, so leaving entries out raises nothing.
\<close>

theorem null_references_dropped:
  "p_entries (build_payload s es cs) =
     map payload_of_strength (filter (\<lambda>e. exercise_id e \<noteq> Null \<and> exercise_id e \<noteq> Undefined) es)
   \<and> p_cardio_entries (build_payload s es cs) =
     map payload_of_cardio
       (filter (\<lambda>c. cardio_type_id c \<noteq> Null \<and> cardio_type_id c \<noteq> Undefined) cs)
   \<and> (\<forall>p \<in> set (p_entries (build_payload s es cs)).
         p_exercise_id p \<noteq> Null \<and> p_exercise_id p \<noteq> Undefined)
   \<and> (\<forall>p \<in> set (p_cardio_entries (build_payload s es cs)).
         p_cardio_type_id p \<noteq> Null \<and> p_cardio_type_id p \<noteq> Undefined)
   \<and> saveWorkout backend s es cs = backend (build_payload s es cs)"
  by (auto simp: build_payload_def saveWorkout_def not_nullish_def Let_def
        payload_of_strength_def payload_of_cardio_def)

theorem null_references_dropped_witness:
  "map p_exercise_id
     (p_entries (build_payload example_screen [bench_press, orphan_entry, blank_entry]
                   [treadmill, orphan_cardio])) = [Id 1, Id 1]
   \<and> map p_cardio_type_id
     (p_cardio_entries (build_payload example_screen [bench_press, orphan_entry, blank_entry]
                          [treadmill, orphan_cardio])) = [Id 2]"
  using null_references_dropped [of example_screen "[bench_press, orphan_entry, blank_entry]"
      "[treadmill, orphan_cardio]"]
  by (simp add: example_defs payload_of_strength_def payload_of_cardio_def)






section \<open>The delete handlers\<close>

text \<open>
  Claim C9. With the refs in step with the state, a confirmed delete whose save fails
  leaves both entry lists as they were before it; one whose save succeeds removes the
  entry at the index and nothing else. This holds for strength and for cardio entries.
\<close>

theorem delete_rolls_back_on_failure:
  assumes "entriesRef s = entries s" and "cardioEntriesRef s = cardioEntries s"
  shows "(\<not> backend (build_payload s (take i (entries s) @ drop (Suc i) (entries s)) (cardioEntries s))
            \<longrightarrow> entries (handleDeleteStrength True backend i s) = entries s)
       \<and> (backend (build_payload s (take i (entries s) @ drop (Suc i) (entries s)) (cardioEntries s))
            \<longrightarrow> entries (handleDeleteStrength True backend i s)
                  = take i (entries s) @ drop (Suc i) (entries s))
       \<and> cardioEntries (handleDeleteStrength True backend i s) = cardioEntries s
       \<and> (\<not> backend (build_payload s (entries s) (take i (cardioEntries s) @ drop (Suc i) (cardioEntries s)))
            \<longrightarrow> cardioEntries (handleDeleteCardio True backend i s) = cardioEntries s)
       \<and> (backend (build_payload s (entries s) (take i (cardioEntries s) @ drop (Suc i) (cardioEntries s)))
            \<longrightarrow> cardioEntries (handleDeleteCardio True backend i s)
                  = take i (cardioEntries s) @ drop (Suc i) (cardioEntries s))
       \<and> entries (handleDeleteCardio True backend i s) = entries s"
  using assms
  by (simp add: handleDeleteStrength_def handleDeleteCardio_def saveWorkout_def Let_def
        filter_index_eq build_payload_def)

theorem delete_rolls_back_on_failure_witness:
  "entriesRef example_screen = entries example_screen
   \<and> cardioEntriesRef example_screen = cardioEntries example_screen
   \<and> entries (handleDeleteStrength True (\<lambda>p. False) 1 example_screen)
       = [bench_press, orphan_entry, blank_entry]
   \<and> entries (handleDeleteStrength True (\<lambda>p. True) 1 example_screen)
       = [bench_press, blank_entry]
   \<and> cardioEntries (handleDeleteCardio True (\<lambda>p. False) 0 example_screen)
       = [treadmill, orphan_cardio]
   \<and> cardioEntries (handleDeleteCardio True (\<lambda>p. True) 0 example_screen)
       = [orphan_cardio]"
proof -
  have h: "entriesRef example_screen = entries example_screen"
    "cardioEntriesRef example_screen = cardioEntries example_screen"
    by (simp_all add: example_screen_def)
  show ?thesis
    using h delete_rolls_back_on_failure [OF h, of "\<lambda>p. False" 1]
      delete_rolls_back_on_failure [OF h, of "\<lambda>p. True" 1]
      delete_rolls_back_on_failure [OF h, of "\<lambda>p. False" 0]
      delete_rolls_back_on_failure [OF h, of "\<lambda>p. True" 0]
    by (simp add: example_screen_def)
qed

section \<open>Digits, dates as text and the numbers read from them\<close>

lemma dec_digit_iff: "dec_digit c \<longleftrightarrow> 48 \<le> (of_char c :: nat) \<and> (of_char c :: nat) \<le> 57"
  by (auto simp: dec_digit_def is_digit_def digit_of_def Let_def)

lemma dec_digit_digit_char: "d < 10 \<Longrightarrow> dec_digit (digit_char d)"
  by (simp add: dec_digit_iff digit_char_def)

lemma digit_of_digit_char: "d < 10 \<Longrightarrow> digit_of (digit_char d) = Some d"
  by (simp add: digit_of_def digit_char_def)

lemma show_nat_digits: "list_all dec_digit (show_nat n)"
proof (induction n rule: show_nat.induct)
  case (1 n)
  show ?case
  proof (cases "n < 10")
    case True
    then show ?thesis by (subst show_nat.simps) (simp add: dec_digit_digit_char)
  next
    case False
    then show ?thesis using 1
      by (subst show_nat.simps) (simp add: dec_digit_digit_char)
  qed
qed

lemma show_nat_nonempty: "show_nat n \<noteq> []"
  by (subst show_nat.simps) simp

lemma digits_value_snoc:
  "digits_value R (s @ [c]) = digits_value R s * R + (case digit_of c of None \<Rightarrow> 0 | Some d \<Rightarrow> d)"
  by (simp add: digits_value_def)

lemma digits_value_show_nat: "digits_value 10 (show_nat n) = n"
proof (induction n rule: show_nat.induct)
  case (1 n)
  show ?case
  proof (cases "n < 10")
    case True
    then show ?thesis
      by (subst show_nat.simps) (simp add: digits_value_def digit_of_digit_char)
  next
    case False
    then show ?thesis using 1
      by (subst show_nat.simps) (simp add: digits_value_snoc digit_of_digit_char)
  qed
qed

lemma length_show_nat_lt10: "n < 10 \<Longrightarrow> length (show_nat n) = 1"
  by (subst show_nat.simps) simp

lemma length_show_nat_step: "10 \<le> n \<Longrightarrow> length (show_nat n) = Suc (length (show_nat (n div 10)))"
  by (subst show_nat.simps) simp

lemma length_show_nat_2: "10 \<le> n \<Longrightarrow> n < 100 \<Longrightarrow> length (show_nat n) = 2"
  by (simp add: length_show_nat_step length_show_nat_lt10)

lemma length_show_nat_3: "100 \<le> n \<Longrightarrow> n < 1000 \<Longrightarrow> length (show_nat n) = 3"
proof -
  assume a: "100 \<le> n" "n < 1000"
  hence "10 \<le> n div 10" "n div 10 < 100" by simp_all
  hence "length (show_nat (n div 10)) = 2" by (rule length_show_nat_2)
  then show ?thesis using a by (simp add: length_show_nat_step)
qed

lemma length_show_nat_4: "1000 \<le> n \<Longrightarrow> n < 10000 \<Longrightarrow> length (show_nat n) = 4"
proof -
  assume a: "1000 \<le> n" "n < 10000"
  hence "100 \<le> n div 10" "n div 10 < 1000" by simp_all
  hence "length (show_nat (n div 10)) = 3" by (rule length_show_nat_3)
  then show ?thesis using a by (simp add: length_show_nat_step)
qed

lemma digits_value_zeros: "digits_value 10 (replicate k CHR ''0'' @ s) = digits_value 10 s"
proof -
  have z: "digit_of CHR ''0'' = Some 0" by (simp add: digit_of_def)
  have "foldl (\<lambda>acc c. acc * 10 + (case digit_of c of None \<Rightarrow> 0 | Some d \<Rightarrow> d)) 0
          (replicate k CHR ''0'') = 0"
    by (induction k) (simp_all add: z)
  then show ?thesis by (simp add: digits_value_def)
qed

lemma digits_value_bound:
  "list_all dec_digit s \<Longrightarrow> digits_value 10 s < 10 ^ length s"
proof (induction s rule: rev_induct)
  case Nil
  then show ?case by (simp add: digits_value_def)
next
  case (snoc c s)
  have c: "dec_digit c" and s: "list_all dec_digit s" using snoc.prems by simp_all
  obtain d where d: "digit_of c = Some d" "d < 10"
    using c by (auto simp: dec_digit_def is_digit_def split: option.splits)
  have "digits_value 10 s < 10 ^ length s" using snoc.IH s by simp
  hence "digits_value 10 s + 1 \<le> 10 ^ length s" by simp
  hence "(digits_value 10 s + 1) * 10 \<le> 10 ^ length s * 10" by (rule mult_le_mono1)
  then show ?case using d by (simp add: digits_value_snoc)
qed

lemma takeWhile_all: "list_all P s \<Longrightarrow> takeWhile P s = s"
  by (induction s) simp_all

lemma dropWhile_all: "list_all P s \<Longrightarrow> dropWhile P s = []"
  by (induction s) simp_all

lemma dec_digit_not_ws: "dec_digit c \<Longrightarrow> \<not> is_ws c"
  by (auto simp: dec_digit_iff is_ws_def)

lemma dec_digit_neq:
  assumes "dec_digit c"
  shows "c \<noteq> CHR ''-''" "c \<noteq> CHR ''+''" "c \<noteq> CHR ''.''" "c \<noteq> CHR ''x''" "c \<noteq> CHR ''X''"
    "c \<noteq> CHR ''o''" "c \<noteq> CHR ''O''" "c \<noteq> CHR ''b''" "c \<noteq> CHR ''B''" "c \<noteq> CHR ''I''"
    "c \<noteq> CHR ''e''" "c \<noteq> CHR ''E''"
  using assms by (auto simp: dec_digit_iff)

lemma trim_digits:
  assumes "s \<noteq> []" "list_all dec_digit s"
  shows "trim s = s"
proof -
  have h: "\<not> is_ws (hd s)" using assms by (cases s) (auto simp: dec_digit_not_ws)
  have l: "\<not> is_ws (last s)" using assms
    by (metis dec_digit_not_ws last_in_set list_all_iff)
  have 1: "dropWhile is_ws s = s" using assms h by (cases s) auto
  obtain ys y where ys: "s = ys @ [y]" using assms(1) by (cases s rule: rev_cases) auto
  hence "\<not> is_ws y" using l by simp
  hence 2: "dropWhile is_ws (rev s) = rev s" by (simp add: ys)
  show ?thesis by (simp add: trim_def 1 2)
qed

lemma take_eq_Cons_mem: "take n s = c # cs \<Longrightarrow> c \<in> set s"
  by (metis in_set_takeD list.set_intros(1))

lemma take2_second_mem: "take 2 s = [a, b] \<Longrightarrow> b \<in> set s"
  by (metis in_set_takeD list.set_intros(1) list.set_intros(2))

lemma scan_decimal_digits:
  assumes "s \<noteq> []" and "list_all dec_digit s"
  shows "scan_decimal s = (SVal (of_nat (digits_value 10 s)), [])"
proof -
  obtain c cs where s: "s = c # cs" using assms(1) by (cases s) auto
  have c: "dec_digit c" using assms(2) s by simp
  have t1: "take 1 s \<noteq> ''-''" "take 1 s \<noteq> ''+''"
    using dec_digit_neq [OF c] by (simp_all add: s)
  have t8: "take 8 s \<noteq> ''Infinity''"
    using dec_digit_neq [OF c] by (auto simp: s)
  have d: "list_all (is_digit 10) s" using assms(2) by (simp add: dec_digit_def list_all_iff)
  show ?thesis
    using t1 t8 assms(1)
    by (simp add: scan_decimal_def Let_def takeWhile_all [OF d] dropWhile_all [OF d]
          scan_exponent_def)
qed

lemma take2_not:
  assumes "list_all dec_digit s" and "\<not> dec_digit b"
  shows "take 2 s \<noteq> [a, b]"
proof
  assume "take 2 s = [a, b]"
  hence "b \<in> set s" by (rule take2_second_mem)
  then show False using assms by (simp add: list_all_iff)
qed

lemma radix_literal_digits:
  assumes "list_all dec_digit s"
  shows "radix_literal s = None"
proof -
  have "take 2 s \<noteq> ''0x''" by (rule take2_not [OF assms]) (simp add: dec_digit_iff)
  moreover have "take 2 s \<noteq> ''0X''" by (rule take2_not [OF assms]) (simp add: dec_digit_iff)
  moreover have "take 2 s \<noteq> ''0o''" by (rule take2_not [OF assms]) (simp add: dec_digit_iff)
  moreover have "take 2 s \<noteq> ''0O''" by (rule take2_not [OF assms]) (simp add: dec_digit_iff)
  moreover have "take 2 s \<noteq> ''0b''" by (rule take2_not [OF assms]) (simp add: dec_digit_iff)
  moreover have "take 2 s \<noteq> ''0B''" by (rule take2_not [OF assms]) (simp add: dec_digit_iff)
  ultimately show ?thesis by (simp add: radix_literal_def Let_def)
qed

lemma Number_digits:
  assumes "s \<noteq> []" and "list_all dec_digit s"
  shows "Number s = fl64 (of_nat (digits_value 10 s))"
  using assms
  by (simp add: Number_def trim_digits radix_literal_digits scan_decimal_digits num_of_strnum_def)

lemma Number_digits_small:
  assumes "s \<noteq> []" and "list_all dec_digit s" and "length s \<le> 15"
  shows "Number s = Fin (of_nat (digits_value 10 s))"
proof -
  have "digits_value 10 s < 10 ^ length s" using assms(2) by (rule digits_value_bound)
  also have "\<dots> \<le> 10 ^ 15" using assms(3) by (intro power_increasing) simp_all
  finally have "int (digits_value 10 s) < 10 ^ 15"
    by (metis of_nat_less_iff of_nat_numeral of_nat_power)
  hence "\<bar>int (digits_value 10 s)\<bar> \<le> 2 ^ 53" by simp
  from fl64_of_int [OF this] show ?thesis
    using Number_digits [OF assms(1,2)] by simp
qed

lemma split_on_no_sep: "c \<notin> set a \<Longrightarrow> split_on c a = [a]"
  by (induction a) auto

lemma split_on_append:
  "c \<notin> set a \<Longrightarrow> split_on c (a @ c # rest) = a # split_on c rest"
  by (induction a) auto

lemma digits_no_dash: "list_all dec_digit s \<Longrightarrow> CHR ''-'' \<notin> set s"
  using dec_digit_neq(1) by (auto simp: list_all_iff)

lemma split_date:
  assumes "list_all dec_digit Y" "list_all dec_digit M" "list_all dec_digit D"
  shows "split_on CHR ''-'' (Y @ ''-'' @ M @ ''-'' @ D) = [Y, M, D]"
  using assms by (simp add: split_on_append split_on_no_sep digits_no_dash)

lemma num_to_string_nat:
  assumes "n \<le> 2 ^ 53"
  shows "num_to_string (Fin (of_nat n)) = show_nat n"
proof -
  have "rat_of_nat n \<le> 2 ^ 53" using assms
    by (metis of_nat_le_iff of_nat_numeral of_nat_power)
  then show ?thesis by (simp add: num_to_string_def show_int_def)
qed

lemma show_int_nat: "show_int (int n) = show_nat n"
  by (simp add: show_int_def)

lemma show_nat_inj: "show_nat a = show_nat b \<Longrightarrow> a = b"
  by (metis digits_value_show_nat)

lemma show_nat_not_dash: "show_nat n \<noteq> CHR ''-'' # s"
proof
  assume "show_nat n = CHR ''-'' # s"
  hence "CHR ''-'' \<in> set (show_nat n)" by simp
  then show False using digits_no_dash [OF show_nat_digits] by blast
qed

lemma show_int_inj: "show_int i = show_int j \<Longrightarrow> i = j"
proof -
  assume e: "show_int i = show_int j"
  show ?thesis
  proof (cases "i < 0")
    case True
    show ?thesis
    proof (cases "j < 0")
      case True
      with \<open>i < 0\<close> e have "show_nat (nat (- i)) = show_nat (nat (- j))"
        by (simp add: show_int_def)
      hence "nat (- i) = nat (- j)" by (rule show_nat_inj)
      then show ?thesis using True \<open>i < 0\<close> by simp
    next
      case False
      with \<open>i < 0\<close> e show ?thesis
        using show_nat_not_dash [of "nat j" "show_nat (nat (- i))"] by (simp add: show_int_def)
    qed
  next
    case False
    show ?thesis
    proof (cases "j < 0")
      case True
      with False e show ?thesis
        using show_nat_not_dash [of "nat i" "show_nat (nat (- j))"] by (simp add: show_int_def)
    next
      case j: False
      with False e have "show_nat (nat i) = show_nat (nat j)"
        by (simp add: show_int_def)
      hence "nat i = nat j" by (rule show_nat_inj)
      then show ?thesis using False j by simp
    qed
  qed
qed

lemma digits_value_small:
  assumes "list_all dec_digit s" and "length s \<le> 15"
  shows "digits_value 10 s \<le> 2 ^ 53"
proof -
  have "digits_value 10 s < 10 ^ length s" using assms(1) by (rule digits_value_bound)
  also have "\<dots> \<le> 10 ^ 15" using assms(2) by (intro power_increasing) simp_all
  finally have "digits_value 10 s < 1000000000000000" by simp
  then show ?thesis by simp
qed


lemma template_Number_digits:
  assumes "s \<noteq> []" and "list_all dec_digit s" and "length s \<le> 15"
  shows "template_string (Some (Number s)) = show_nat (digits_value 10 s)"
proof -
  have "Number s = Fin (of_nat (digits_value 10 s))"
    using assms by (rule Number_digits_small)
  moreover have "digits_value 10 s \<le> 2 ^ 53" using assms(2,3) by (rule digits_value_small)
  ultimately show ?thesis
    by (simp add: template_string_def num_to_string_nat)
qed


lemma month_tag_of_date:
  assumes "Y \<noteq> []" "M \<noteq> []" "length Y \<le> 15" "length M \<le> 15"
    and "list_all dec_digit Y" "list_all dec_digit M" "list_all dec_digit D"
  shows "saveDayWorkout_invalidatesTags (Y @ ''-'' @ M @ ''-'' @ D) =
           [\<lparr>tag_type = Workout, tag_id = Some (Y @ ''-'' @ M @ ''-'' @ D)\<rparr>,
            \<lparr>tag_type = MonthWorkouts,
              tag_id = Some (show_nat (digits_value 10 Y) @ ''-'' @ show_nat (digits_value 10 M))\<rparr>,
            \<lparr>tag_type = Analytics, tag_id = None\<rparr>]"
proof -
  have sp: "map Number (split_on CHR ''-'' (Y @ ''-'' @ M @ ''-'' @ D))
              = [Number Y, Number M, Number D]"
    using assms(5,6,7) by (simp only: split_date list.map)
  have y: "template_string (Some (Number Y)) = show_nat (digits_value 10 Y)"
    using assms(1,5,3) by (rule template_Number_digits)
  have m: "template_string (Some (Number M)) = show_nat (digits_value 10 M)"
    using assms(2,6,4) by (rule template_Number_digits)
  have n0: "nth_opt [Number Y, Number M, Number D] 0 = Some (Number Y)"
    by (simp add: nth_opt_def)
  have n1: "nth_opt [Number Y, Number M, Number D] 1 = Some (Number M)"
    by (simp add: nth_opt_def)
  show ?thesis
    unfolding saveDayWorkout_invalidatesTags_def sp Let_def n0 n1 y m ..
qed

section \<open>The cache tags of a day save\<close>

text \<open>
  Claim C3. For a date \<open>YYYY-MM-DD\<close>, the tags that the save mutation invalidates are
  exactly three: the tag that the day query of that very date provides, the tag that the
  month query of the year and month read from the date provides for its month, and the
  tag of the analytics summary.
\<close>

theorem save_invalidates_day_month_analytics:
  assumes "length Y = 4" and "length M = 2" and "length D = 2"
    and "list_all dec_digit Y" and "list_all dec_digit M" and "list_all dec_digit D"
  shows "saveDayWorkout_invalidatesTags (Y @ ''-'' @ M @ ''-'' @ D) =
           getDayWorkout_providesTags (Y @ ''-'' @ M @ ''-'' @ D)
           @ take 1 (getMonthWorkouts_providesTags (int (digits_value 10 Y)) (int (digits_value 10 M)))
           @ getAnalyticsSummary_providesTags"
proof -
  have "Y \<noteq> []" "M \<noteq> []" "length Y \<le> 15" "length M \<le> 15" using assms(1,2) by auto
  from month_tag_of_date [OF this assms(4,5,6)] show ?thesis
    by (simp add: getDayWorkout_providesTags_def getMonthWorkouts_providesTags_def
          getAnalyticsSummary_providesTags_def show_int_nat)
qed

theorem save_invalidates_day_month_analytics_witness:
  "saveDayWorkout_invalidatesTags ''2025-01-31'' =
     [\<lparr>tag_type = Workout, tag_id = Some ''2025-01-31''\<rparr>,
      \<lparr>tag_type = MonthWorkouts, tag_id = Some ''2025-1''\<rparr>,
      \<lparr>tag_type = Analytics, tag_id = None\<rparr>]
   \<and> getMonthWorkouts_providesTags 2025 1 =
     [\<lparr>tag_type = MonthWorkouts, tag_id = Some ''2025-1''\<rparr>,
      \<lparr>tag_type = Workout, tag_id = None\<rparr>]"
proof -
  have d: "list_all dec_digit ''2025''" "list_all dec_digit ''01''" "list_all dec_digit ''31''"
    by (simp_all add: dec_digit_iff)
  have v: "digits_value 10 ''2025'' = 2025" "digits_value 10 ''01'' = 1"
    by (simp_all add: digits_value_def digit_of_def)
  have "digit_char (Suc 0) = CHR ''1''" using digit_char_simps(2) by simp
  hence s: "show_int 2025 = ''2025''" "show_int 1 = ''1''"
    by (simp_all add: show_int_def show_nat.simps digit_char_simps)
  show ?thesis
    using save_invalidates_day_month_analytics [of "''2025''" "''01''" "''31''"] d
    by (simp add: v s getDayWorkout_providesTags_def getMonthWorkouts_providesTags_def
          getAnalyticsSummary_providesTags_def)
qed

text \<open>
  Claim C4, as stated, fails: the history of exercise 7 is invalidated by the save of
  31 January 2025.
\<close>

theorem history_invalidated_by_a_save:
  "invalidated (saveDayWorkout_invalidatesTags ''2025-01-31'') (getExerciseHistory_providesTags 7)"
  by (simp add: invalidated_def saveDayWorkout_invalidatesTags_def
        getExerciseHistory_providesTags_def tag_reaches_def Let_def)

text \<open>
  Claim C4, as the code has it. The history of each exercise has a tag of its own, of
  type \<open>Analytics\<close> with the exercise id in its id, and every save of a day invalidates
  it: the save invalidates the tag \<open>Analytics\<close> without an id, which reaches every tag
  of that type. The other two tags of the save do not reach it.
\<close>

theorem history_invalidated_by_every_save:
  "invalidated (saveDayWorkout_invalidatesTags d) (getExerciseHistory_providesTags exerciseId)
   \<and> \<not> invalidated (take 2 (saveDayWorkout_invalidatesTags d))
         (getExerciseHistory_providesTags exerciseId)
   \<and> inj getExerciseHistory_providesTags"
proof -
  have "inj getExerciseHistory_providesTags"
    by (rule injI) (simp add: getExerciseHistory_providesTags_def show_int_inj)
  then show ?thesis
    by (simp add: invalidated_def saveDayWorkout_invalidatesTags_def
          getExerciseHistory_providesTags_def tag_reaches_def Let_def)
qed

end
